theory Spec2Isabelle
  imports Main "HOL-Library.Char_ord" "HOL-Library.List_Lexorder"
begin

section \<open>The course catalog of EWFinalProject.cpp\<close>

text \<open>
  The program keeps courses in a \<^verbatim>\<open>std::unordered_map<std::string, Course>\<close>,
  fills it from a comma separated text file, and offers a validation pass, a point
  lookup and a sorted listing.  Strings are byte strings (\<^typ>\<open>string\<close>), compared as
  \<^verbatim>\<open>std::string\<close> compares them: lexicographically on unsigned bytes, which is the
  order of \<^theory_text>\<open>Char_ord\<close> and \<^theory_text>\<open>List_Lexorder\<close>.
\<close>

subsection \<open>Data model\<close>

record Course =
  number :: string
  title :: string
  prerequisites :: "string list"

text \<open>
  The contents of the hash table are a finite map.  An unordered map has no specified
  iteration order, so a range-for over the table is modelled by the list of entries it
  visits; that list can be any enumeration of the table (\<open>iteration_of\<close>), and the
  functions that iterate take it as their argument.
\<close>

type_synonym HashTable = "string \<rightharpoonup> Course"

definition iteration_of :: "HashTable \<Rightarrow> (string \<times> Course) list \<Rightarrow> bool" where
  "iteration_of t es = (distinct (map fst es) \<and> map_of es = t)"

text \<open>The file system as far as the program sees it: the bytes of each file that opens.\<close>

type_synonym FileSystem = "string \<rightharpoonup> string"

definition endl :: string where
  "endl = [CHR 0x0A]"

subsection \<open>Reading lines and tokens\<close>

text \<open>
  \<^verbatim>\<open>std::getline(stream, s, delim)\<close> on a stream whose unread content is \<open>cs\<close>:
  it fails when nothing is left; otherwise it moves characters to \<open>s\<close> up to the first
  delimiter or the end of the content, and consumes the delimiter.
\<close>

fun extract_until :: "char \<Rightarrow> string \<Rightarrow> string \<times> string" where
  "extract_until delim [] = ([], [])"
| "extract_until delim (c # cs) =
     (if c = delim then ([], cs)
      else (case extract_until delim cs of (s, rest) \<Rightarrow> (c # s, rest)))"

definition getline :: "char \<Rightarrow> string \<Rightarrow> (string \<times> string) option" where
  "getline delim cs = (if cs = [] then None else Some (extract_until delim cs))"

text \<open>
  Lines 53 to 57: \<^verbatim>\<open>while (std::getline(ss, token, ',')) tokens.push_back(token);\<close>
  with the delimiter as a parameter.
\<close>

function read_tokens :: "char \<Rightarrow> string \<Rightarrow> string list" where
  "read_tokens delim cs =
     (case getline delim cs of
        None \<Rightarrow> []
      | Some (token, rest) \<Rightarrow> token # read_tokens delim rest)"
  by pat_completeness auto
termination
proof -
  have len: "length (snd (extract_until d cs)) \<le> length cs" for d cs
    by (induction cs) (auto split: prod.splits)
  have shorter: "length rest < length cs" if "getline d cs = Some (s, rest)" for d cs s rest
    using that len [of d "tl cs"]
    by (cases cs) (auto simp: getline_def split: prod.splits if_splits)
  show ?thesis
    by (relation "measure (\<lambda>(delim, cs). length cs)") (auto dest: shorter)
qed

declare read_tokens.simps [simp del]

subsection \<open>loadCoursesToHashTable\<close>

text \<open>
  The state of the load loop is the table built so far and what has been written to
  \<^verbatim>\<open>std::cerr\<close>.  \<open>load_line\<close> is the body of the outer loop (lines 51 to 75).
\<close>

definition load_line :: "string \<Rightarrow> HashTable \<times> string \<Rightarrow> HashTable \<times> string" where
  "load_line lineData st =
     (case st of (coursesHashTable, err) \<Rightarrow>
        let tokens = read_tokens (CHR '','') lineData in
        if length tokens < 2
        then (coursesHashTable, err @ ''Error: Line has less than 2 parameters.'' @ endl)
        else
          let courseNumber = tokens ! 0;
              courseTitle = tokens ! 1;
              prereqs = drop 2 tokens;
              course = \<lparr>number = courseNumber, title = courseTitle, prerequisites = prereqs\<rparr>
          in (coursesHashTable(courseNumber \<mapsto> course), err))"

function load_loop :: "string \<Rightarrow> HashTable \<times> string \<Rightarrow> HashTable \<times> string" where
  "load_loop file st =
     (case getline (CHR 0x0A) file of
        None \<Rightarrow> st
      | Some (lineData, rest) \<Rightarrow> load_loop rest (load_line lineData st))"
  by pat_completeness auto
termination
proof -
  have len: "length (snd (extract_until d cs)) \<le> length cs" for d cs
    by (induction cs) (auto split: prod.splits)
  have shorter: "length rest < length cs" if "getline d cs = Some (s, rest)" for d cs s rest
    using that len [of d "tl cs"]
    by (cases cs) (auto simp: getline_def split: prod.splits if_splits)
  show ?thesis
    by (relation "measure (\<lambda>(file, st). length file)") (auto dest: shorter)
qed

declare load_loop.simps [simp del]

definition loadCoursesToHashTable :: "FileSystem \<Rightarrow> string \<Rightarrow> HashTable \<times> string" where
  "loadCoursesToHashTable fs filePath =
     (case fs filePath of
        None \<Rightarrow> (Map.empty, ''Error: Unable to open file.'' @ endl)
      | Some file \<Rightarrow> load_loop file (Map.empty, []))"

text \<open>
  Menu choice 1 of \<open>main\<close> (lines 195 to 201): the path read from standard input is a
  parameter; the table held by the loop is replaced by the result of the load.  The
  result is the new table, the text written to \<^verbatim>\<open>std::cout\<close> and the text written
  to \<^verbatim>\<open>std::cerr\<close>.
\<close>

definition load_choice :: "FileSystem \<Rightarrow> string \<Rightarrow> HashTable \<Rightarrow> HashTable \<times> string \<times> string" where
  "load_choice fs filePath coursesHashTable =
     (case loadCoursesToHashTable fs filePath of
        (loaded, err) \<Rightarrow> (loaded, ''Enter filepath to load: '' @ filePath, err))"

subsection \<open>validateHashTable\<close>

text \<open>The first loop (lines 94 to 96) collects the keys into an unordered set.\<close>

fun collect_numbers :: "(string \<times> Course) list \<Rightarrow> string set \<Rightarrow> string set" where
  "collect_numbers [] courseNumbers = courseNumbers"
| "collect_numbers (pair # rest) courseNumbers =
     collect_numbers rest (insert (fst pair) courseNumbers)"

text \<open>
  The inner loop (lines 101 to 106) over the prerequisites of one course: the first
  prerequisite that is not a course number, if there is one.
\<close>

fun check_prerequisites :: "string set \<Rightarrow> string list \<Rightarrow> string option" where
  "check_prerequisites courseNumbers [] = None"
| "check_prerequisites courseNumbers (prerequisite # rest) =
     (if prerequisite \<notin> courseNumbers then Some prerequisite
      else check_prerequisites courseNumbers rest)"

definition missing_message :: "string \<Rightarrow> string" where
  "missing_message prerequisite =
     ''Error: Prerequisite '' @ prerequisite @ '' does not exist as a course.'' @ endl"

text \<open>The outer loop (lines 99 to 107); the result is the return value and the text on \<^verbatim>\<open>std::cerr\<close>.\<close>

fun check_courses :: "string set \<Rightarrow> (string \<times> Course) list \<Rightarrow> bool \<times> string" where
  "check_courses courseNumbers [] = (True, [])"
| "check_courses courseNumbers (pair # rest) =
     (case check_prerequisites courseNumbers (prerequisites (snd pair)) of
        Some prerequisite \<Rightarrow> (False, missing_message prerequisite)
      | None \<Rightarrow> check_courses courseNumbers rest)"

definition validateHashTable :: "(string \<times> Course) list \<Rightarrow> bool \<times> string" where
  "validateHashTable es = check_courses (collect_numbers es {}) es"

subsection \<open>searchCourseInHashTable\<close>

text \<open>The loop of lines 130 to 132 writes every prerequisite followed by one space.\<close>

fun print_prerequisites :: "string list \<Rightarrow> string" where
  "print_prerequisites [] = []"
| "print_prerequisites (prerequisite # rest) =
     prerequisite @ '' '' @ print_prerequisites rest"

text \<open>The result is the text written to \<^verbatim>\<open>std::cout\<close> and the text written to \<^verbatim>\<open>std::cerr\<close>.\<close>

definition searchCourseInHashTable :: "HashTable \<Rightarrow> string \<Rightarrow> string \<times> string" where
  "searchCourseInHashTable coursesHashTable courseNumber =
     (case coursesHashTable courseNumber of
        Some course \<Rightarrow>
          (''Course Number: '' @ number course @ endl @
           ''Course Title: '' @ title course @ endl @
           ''Prerequisites: '' @
           (if prerequisites course = [] then ''None'' @ endl
            else print_prerequisites (prerequisites course) @ endl),
           [])
      | None \<Rightarrow> ([], ''Error: Course '' @ courseNumber @ '' not found.'' @ endl))"

subsection \<open>PrintAllCourses\<close>

text \<open>
  \<^verbatim>\<open>coursesHashTable[courseNumber]\<close> on the function's own copy of the table: the
  stored course, or a default constructed one for a key that is not there.
\<close>

definition subscript :: "HashTable \<Rightarrow> string \<Rightarrow> Course" where
  "subscript coursesHashTable courseNumber =
     (case coursesHashTable courseNumber of
        Some course \<Rightarrow> course
      | None \<Rightarrow> \<lparr>number = [], title = [], prerequisites = []\<rparr>)"

fun print_lines :: "HashTable \<Rightarrow> string list \<Rightarrow> string" where
  "print_lines coursesHashTable [] = []"
| "print_lines coursesHashTable (courseNumber # rest) =
     (let course = subscript coursesHashTable courseNumber
      in number course @ '': '' @ title course @ endl @ print_lines coursesHashTable rest)"

text \<open>
  The keys are collected in iteration order \<open>es\<close> and sorted with \<^verbatim>\<open>std::sort\<close>
  under \<^verbatim>\<open>operator<\<close> of \<^verbatim>\<open>std::string\<close>; a sorted list of strings is determined
  by its elements, so \<^const>\<open>sort\<close> returns what \<^verbatim>\<open>std::sort\<close> returns.
\<close>

definition PrintAllCourses :: "HashTable \<Rightarrow> (string \<times> Course) list \<Rightarrow> string" where
  "PrintAllCourses coursesHashTable es =
     (let courseNumbers = sort (map fst es)
      in ''Courses in the Computer Science department:'' @ endl @
         print_lines coursesHashTable courseNumbers)"


subsection \<open>Vocabulary of the statements\<close>

text \<open>The lines of a file and the tokens of a line, as the two reading loops produce them.\<close>

definition file_lines :: "string \<Rightarrow> string list" where
  "file_lines file = read_tokens (CHR 0x0A) file"

definition line_tokens :: "string \<Rightarrow> string list" where
  "line_tokens lineData = read_tokens (CHR '','') lineData"

text \<open>A line is accepted when the test of line 59 does not reject it.\<close>

definition accepted :: "string \<Rightarrow> bool" where
  "accepted lineData = (\<not> length (line_tokens lineData) < 2)"

definition course_of_line :: "string \<Rightarrow> Course" where
  "course_of_line lineData =
     \<lparr>number = line_tokens lineData ! 0, title = line_tokens lineData ! 1,
      prerequisites = drop 2 (line_tokens lineData)\<rparr>"

definition malformed_message :: string where
  "malformed_message = ''Error: Line has less than 2 parameters.'' @ endl"

text \<open>Every record is stored under its own course number, as the load stores it.\<close>

definition keyed_by_number :: "HashTable \<Rightarrow> bool" where
  "keyed_by_number t = (\<forall>k c. t k = Some c \<longrightarrow> number c = k)"

text \<open>The fields joined with a separator between neighbours (and none at the end).\<close>

fun join_fields :: "char \<Rightarrow> string list \<Rightarrow> string" where
  "join_fields sep [] = []"
| "join_fields sep [f] = f"
| "join_fields sep (f # g # fs) = f @ sep # join_fields sep (g # fs)"

text \<open>
  The specification's word "trimmed", for a token: it neither starts nor ends with
  white space (the characters of \<^verbatim>\<open>isspace\<close> in the C locale).
\<close>

definition is_space :: "char \<Rightarrow> bool" where
  "is_space c = (c \<in> {CHR '' '', CHR 0x09, CHR 0x0A, CHR 0x0B, CHR 0x0C, CHR 0x0D})"

definition is_trimmed :: "string \<Rightarrow> bool" where
  "is_trimmed s = (s = [] \<or> (\<not> is_space (hd s) \<and> \<not> is_space (last s)))"

text \<open>
  The specification's format of a found record: three lines, the last one holding the
  prerequisites joined by single spaces, or \<^verbatim>\<open>None\<close>.
\<close>

definition search_format_spec :: "Course \<Rightarrow> string" where
  "search_format_spec course =
     ''Course Number: '' @ number course @ endl @
     ''Course Title: '' @ title course @ endl @
     ''Prerequisites: '' @
     (if prerequisites course = [] then ''None''
      else join_fields (CHR '' '') (prerequisites course)) @ endl"

section \<open>Facts about the two reading loops\<close>

lemma read_tokens_Nil [simp]: "read_tokens d [] = []"
  by (simp add: read_tokens.simps getline_def)

lemma read_tokens_step:
  "cs \<noteq> [] \<Longrightarrow>
     read_tokens d cs = fst (extract_until d cs) # read_tokens d (snd (extract_until d cs))"
  by (subst read_tokens.simps) (simp add: getline_def split: prod.splits)

lemma read_tokens_delim [simp]: "read_tokens d (d # cs) = [] # read_tokens d cs"
  by (simp add: read_tokens_step)

lemma read_tokens_single [simp]: "c \<noteq> d \<Longrightarrow> read_tokens d [c] = [[c]]"
  by (simp add: read_tokens_step)

lemma read_tokens_other:
  "c \<noteq> d \<Longrightarrow> cs \<noteq> [] \<Longrightarrow>
     read_tokens d (c # cs) = (c # hd (read_tokens d cs)) # tl (read_tokens d cs)"
  by (simp add: read_tokens_step [of "c # cs"] read_tokens_step [of cs] split: prod.splits)

lemma read_tokens_eq_Nil [simp]: "read_tokens d cs = [] \<longleftrightarrow> cs = []"
  by (cases cs) (auto simp: read_tokens_step)

lemma read_tokens_line:
  "d \<notin> set l \<Longrightarrow> read_tokens d (l @ d # rest) = l # read_tokens d rest"
  by (induction l) (auto simp: read_tokens_other)

lemma read_tokens_trailing:
  "read_tokens d (l @ [d]) =
     (if l = [] \<or> last l = d then read_tokens d l @ [[]] else read_tokens d l)"
proof (induction l)
  case Nil
  show ?case by simp
next
  case (Cons c l)
  show ?case
  proof (cases "c = d")
    case True
    with Cons show ?thesis by auto
  next
    case False
    show ?thesis
    proof (cases "l = []")
      case True
      with False show ?thesis by (simp add: read_tokens_other)
    next
      case nonempty: False
      then have "read_tokens d l \<noteq> []" by simp
      with False nonempty Cons show ?thesis
        by (cases "read_tokens d l") (auto simp: read_tokens_other)
    qed
  qed
qed

lemma read_tokens_no_delim: "t \<in> set (read_tokens d cs) \<Longrightarrow> d \<notin> set t"
proof (induction cs arbitrary: t)
  case Nil
  then show ?case by simp
next
  case (Cons c cs)
  show ?case
  proof (cases "c = d")
    case True
    with Cons show ?thesis by auto
  next
    case False
    show ?thesis
    proof (cases "cs = []")
      case True
      with False Cons.prems show ?thesis by auto
    next
      case nonempty: False
      then obtain u us where u: "read_tokens d cs = u # us"
        by (cases "read_tokens d cs") auto
      with False nonempty Cons show ?thesis
        by (auto simp: read_tokens_other)
    qed
  qed
qed

lemma join_fields_Cons:
  "fs \<noteq> [] \<Longrightarrow> join_fields sep (f # fs) = f @ sep # join_fields sep fs"
  by (cases fs) auto

lemma join_read_tokens:
  "cs \<noteq> [] \<Longrightarrow>
     join_fields d (read_tokens d cs) = (if last cs = d then butlast cs else cs)"
proof (induction cs)
  case Nil
  then show ?case by simp
next
  case (Cons c cs)
  show ?case
  proof (cases "cs = []")
    case True
    then show ?thesis by (cases "c = d") auto
  next
    case nonempty: False
    then obtain u us where u: "read_tokens d cs = u # us"
      by (cases "read_tokens d cs") auto
    show ?thesis
    proof (cases "c = d")
      case True
      with nonempty Cons u show ?thesis by (auto simp: join_fields_Cons)
    next
      case False
      with nonempty Cons u show ?thesis
        by (cases us) (auto simp: read_tokens_other)
    qed
  qed
qed

lemma hd_read_tokens:
  "cs \<noteq> [] \<Longrightarrow> hd (read_tokens d cs) = takeWhile (\<lambda>c. c \<noteq> d) cs"
proof (induction cs)
  case Nil
  then show ?case by simp
next
  case (Cons c cs)
  then show ?case
    by (cases "cs = []"; cases "c = d") (auto simp: read_tokens_other)
qed

lemma last_read_tokens:
  "cs \<noteq> [] \<Longrightarrow> last cs \<noteq> d \<Longrightarrow> last (read_tokens d cs) \<noteq> []"
proof (induction cs)
  case Nil
  then show ?case by simp
next
  case (Cons c cs)
  show ?case
  proof (cases "cs = []")
    case True
    with Cons.prems show ?thesis by auto
  next
    case nonempty: False
    then obtain u us where u: "read_tokens d cs = u # us"
      by (cases "read_tokens d cs") auto
    with nonempty Cons show ?thesis
      by (cases "c = d") (auto simp: read_tokens_other)
  qed
qed

lemma load_loop_fold: "load_loop cs st = fold load_line (file_lines cs) st"
proof (induction cs st rule: load_loop.induct)
  case (1 cs st)
  show ?case
  proof (cases "getline (CHR 0x0A) cs")
    case None
    then show ?thesis
      by (subst load_loop.simps) (simp add: file_lines_def read_tokens.simps)
  next
    case (Some a)
    obtain lineData rest where a: "a = (lineData, rest)" by (cases a)
    with Some have g: "getline (CHR 0x0A) cs = Some (lineData, rest)" by simp
    have IH: "load_loop rest (load_line lineData st) =
        fold load_line (file_lines rest) (load_line lineData st)"
      by (rule 1 [OF g refl])
    have "load_loop cs st = load_loop rest (load_line lineData st)"
      by (subst load_loop.simps) (simp add: g)
    moreover have "file_lines cs = lineData # file_lines rest"
      unfolding file_lines_def by (subst read_tokens.simps) (simp add: g)
    ultimately show ?thesis using IH by simp
  qed
qed

lemma load_line_cases:
  "load_line l (t, e) =
     (if accepted l then (t(line_tokens l ! 0 \<mapsto> course_of_line l), e)
      else (t, e @ malformed_message))"
  by (simp add: load_line_def accepted_def line_tokens_def course_of_line_def
      malformed_message_def Let_def)

lemma fold_load_line_table:
  "fst (fold load_line ls (t, e)) k =
     (case filter (\<lambda>l. accepted l \<and> line_tokens l ! 0 = k) ls of
        [] \<Rightarrow> t k
      | x # xs \<Rightarrow> Some (course_of_line (last (x # xs))))"
proof (induction ls rule: rev_induct)
  case Nil
  show ?case by simp
next
  case (snoc l ls)
  obtain t' e' where st: "fold load_line ls (t, e) = (t', e')"
    by (cases "fold load_line ls (t, e)")
  with snoc show ?case
    by (auto simp: load_line_cases split: list.splits)
qed

lemma fold_load_line_err:
  "snd (fold load_line ls (t, e)) =
     e @ concat (map (\<lambda>l. malformed_message) (filter (\<lambda>l. \<not> accepted l) ls))"
proof (induction ls rule: rev_induct)
  case Nil
  show ?case by simp
next
  case (snoc l ls)
  obtain t' e' where st: "fold load_line ls (t, e) = (t', e')"
    by (cases "fold load_line ls (t, e)")
  with snoc show ?case
    by (auto simp: load_line_cases)
qed

lemma fold_load_line_dom:
  "dom (fst (fold load_line ls (t, e))) =
     dom t \<union> set (map (\<lambda>l. line_tokens l ! 0) (filter accepted ls))"
proof (induction ls rule: rev_induct)
  case Nil
  show ?case by simp
next
  case (snoc l ls)
  obtain t' e' where st: "fold load_line ls (t, e) = (t', e')"
    by (cases "fold load_line ls (t, e)")
  with snoc have IH: "dom t' = dom t \<union> set (map (\<lambda>l. line_tokens l ! 0) (filter accepted ls))"
    by simp
  show ?case
  proof (cases "accepted l")
    case True
    then have "fst (fold load_line (ls @ [l]) (t, e)) = t'(line_tokens l ! 0 \<mapsto> course_of_line l)"
      by (simp add: st load_line_cases)
    then have "dom (fst (fold load_line (ls @ [l]) (t, e))) = insert (line_tokens l ! 0) (dom t')"
      by (simp only: dom_fun_upd) simp
    with IH True show ?thesis by simp
  next
    case False
    then have "fst (fold load_line (ls @ [l]) (t, e)) = t'"
      by (simp add: st load_line_cases)
    with IH False show ?thesis by simp
  qed
qed

lemma extract_until_line:
  "d \<notin> set l \<Longrightarrow> extract_until d (l @ d # rest) = (l, rest)"
  by (induction l) auto

lemma load_loop_line:
  "CHR 0x0A \<notin> set l \<Longrightarrow> load_loop (l @ CHR 0x0A # rest) st = load_loop rest (load_line l st)"
  by (subst load_loop.simps) (simp add: getline_def extract_until_line)

lemma load_table:
  "fs filePath = Some file \<Longrightarrow>
     loadCoursesToHashTable fs filePath = fold load_line (file_lines file) (Map.empty, [])"
  by (simp add: loadCoursesToHashTable_def load_loop_fold)

lemma accepted_nonempty: "accepted l \<Longrightarrow> l \<noteq> []"
  by (auto simp: accepted_def line_tokens_def)

lemma first_token:
  "l \<noteq> [] \<Longrightarrow> line_tokens l ! 0 = takeWhile (\<lambda>c. c \<noteq> CHR '','') l"
  using hd_read_tokens [of l "CHR '',''"]
  by (simp add: line_tokens_def hd_conv_nth)

lemma first_token_empty:
  "l \<noteq> [] \<Longrightarrow> line_tokens l ! 0 = [] \<longleftrightarrow> hd l = CHR '',''"
  by (cases l) (auto simp: first_token)

lemma print_prerequisites_join:
  "ps \<noteq> [] \<Longrightarrow> print_prerequisites ps = join_fields (CHR '' '') ps @ '' ''"
proof (induction ps)
  case Nil
  then show ?case by simp
next
  case (Cons p ps)
  then show ?case by (cases "ps = []") (auto simp: join_fields_Cons)
qed

lemma print_lines_concat:
  "print_lines t ks =
     concat (map (\<lambda>k. number (subscript t k) @ '': '' @ title (subscript t k) @ endl) ks)"
  by (induction ks) (auto simp: Let_def)

lemma load_line_keyed:
  "keyed_by_number (fst st) \<Longrightarrow> keyed_by_number (fst (load_line l st))"
  by (cases st) (auto simp: load_line_cases keyed_by_number_def course_of_line_def)

lemma fold_load_line_keyed:
  "keyed_by_number (fst st) \<Longrightarrow> keyed_by_number (fst (fold load_line ls st))"
  by (induction ls arbitrary: st) (auto simp: load_line_keyed)

lemma load_keyed_by_number: "keyed_by_number (fst (loadCoursesToHashTable fs filePath))"
proof (cases "fs filePath")
  case None
  then show ?thesis by (simp add: loadCoursesToHashTable_def keyed_by_number_def)
next
  case (Some content)
  have "keyed_by_number (fst (Map.empty :: HashTable, [] :: string))"
    by (simp add: keyed_by_number_def)
  then show ?thesis
    unfolding load_table [of fs filePath content, OF Some] by (rule fold_load_line_keyed)
qed

section \<open>Facts about the validation loops\<close>

lemma collect_numbers_eq: "collect_numbers es s = s \<union> fst ` set es"
  by (induction es arbitrary: s) auto

lemma check_prerequisites_find:
  "check_prerequisites cn ps = find (\<lambda>p. p \<notin> cn) ps"
  by (induction ps) auto

lemma find_app:
  "find P (xs @ ys) = (case find P xs of None \<Rightarrow> find P ys | Some x \<Rightarrow> Some x)"
  by (induction xs) auto

lemma check_courses_find:
  "check_courses cn es =
     (case find (\<lambda>p. p \<notin> cn) (concat (map (\<lambda>e. prerequisites (snd e)) es)) of
        None \<Rightarrow> (True, [])
      | Some p \<Rightarrow> (False, missing_message p))"
proof (induction es)
  case Nil
  show ?case by simp
next
  case (Cons e es)
  show ?case
  proof (cases "find (\<lambda>p. p \<notin> cn) (prerequisites (snd e))")
    case None
    with Cons show ?thesis
      by (simp add: check_prerequisites_find find_app)
  next
    case (Some p)
    then show ?thesis
      by (simp add: check_prerequisites_find find_app)
  qed
qed

lemma check_courses_stops:
  "check_prerequisites cn (prerequisites c) \<noteq> None \<Longrightarrow>
     check_courses cn (es1 @ (k, c) # es2) = check_courses cn (es1 @ [(k, c)])"
  by (induction es1) (auto split: option.splits)

lemma iteration_of_dom: "iteration_of t es \<Longrightarrow> dom t = fst ` set es"
  unfolding iteration_of_def by (metis dom_map_of_conv_image_fst)

lemma iteration_of_lookup:
  "iteration_of t es \<Longrightarrow> t k = Some c \<longleftrightarrow> (k, c) \<in> set es"
  by (auto simp: iteration_of_def)

section \<open>The claims\<close>

subsection \<open>Validation\<close>

text \<open>
  C1.  For every table and every order \<open>es\<close> in which its entries are visited,
  \<open>validateHashTable\<close> returns true exactly when every prerequisite of every stored
  course is a key of the table.  Otherwise it returns false with one diagnostic, for the
  first missing prerequisite in iteration order, and the entries after the first course
  with a missing prerequisite have no influence on the result.
\<close>

theorem validateHashTable_first_violation:
  assumes it: "iteration_of t es"
  shows "(fst (validateHashTable es) \<longleftrightarrow>
            (\<forall>k c. t k = Some c \<longrightarrow> (\<forall>p \<in> set (prerequisites c). p \<in> dom t)))
       \<and> validateHashTable es =
           (case find (\<lambda>p. p \<notin> dom t) (concat (map (\<lambda>e. prerequisites (snd e)) es)) of
              None \<Rightarrow> (True, [])
            | Some p \<Rightarrow> (False, missing_message p))
       \<and> (es = es1 @ (k, c) # es2 \<and> (\<exists>p \<in> set (prerequisites c). p \<notin> dom t) \<longrightarrow>
             validateHashTable es = check_courses (dom t) (es1 @ [(k, c)]))"
proof -
  have keys: "collect_numbers es {} = dom t"
    using it by (simp add: collect_numbers_eq iteration_of_dom)
  have second: "validateHashTable es =
           (case find (\<lambda>p. p \<notin> dom t) (concat (map (\<lambda>e. prerequisites (snd e)) es)) of
              None \<Rightarrow> (True, [])
            | Some p \<Rightarrow> (False, missing_message p))"
    by (simp add: validateHashTable_def keys check_courses_find)
  have "fst (validateHashTable es) \<longleftrightarrow>
          find (\<lambda>p. p \<notin> dom t) (concat (map (\<lambda>e. prerequisites (snd e)) es)) = None"
    by (simp add: second split: option.splits)
  also have "\<dots> \<longleftrightarrow> (\<forall>e \<in> set es. \<forall>p \<in> set (prerequisites (snd e)). p \<in> dom t)"
    by (auto simp: find_None_iff)
  also have "\<dots> \<longleftrightarrow> (\<forall>k c. t k = Some c \<longrightarrow> (\<forall>p \<in> set (prerequisites c). p \<in> dom t))"
  proof
    assume a: "\<forall>e \<in> set es. \<forall>p \<in> set (prerequisites (snd e)). p \<in> dom t"
    show "\<forall>k c. t k = Some c \<longrightarrow> (\<forall>p \<in> set (prerequisites c). p \<in> dom t)"
    proof (intro allI impI ballI)
      fix k c p
      assume "t k = Some c" and p: "p \<in> set (prerequisites c)"
      then have "(k, c) \<in> set es" by (simp add: iteration_of_lookup [OF it])
      with a p show "p \<in> dom t" by force
    qed
  next
    assume a: "\<forall>k c. t k = Some c \<longrightarrow> (\<forall>p \<in> set (prerequisites c). p \<in> dom t)"
    show "\<forall>e \<in> set es. \<forall>p \<in> set (prerequisites (snd e)). p \<in> dom t"
    proof (intro ballI)
      fix e p
      assume "e \<in> set es" and p: "p \<in> set (prerequisites (snd e))"
      then have "t (fst e) = Some (snd e)" by (simp add: iteration_of_lookup [OF it])
      with a p show "p \<in> dom t" by blast
    qed
  qed
  finally have first: "fst (validateHashTable es) \<longleftrightarrow>
            (\<forall>k c. t k = Some c \<longrightarrow> (\<forall>p \<in> set (prerequisites c). p \<in> dom t))" .
  have third: "validateHashTable es = check_courses (dom t) (es1 @ [(k, c)])"
    if split: "es = es1 @ (k, c) # es2" and missing: "\<exists>p \<in> set (prerequisites c). p \<notin> dom t"
  proof -
    from missing have violation: "check_prerequisites (dom t) (prerequisites c) \<noteq> None"
      by (auto simp: check_prerequisites_find find_None_iff)
    have "validateHashTable es = check_courses (dom t) es"
      by (simp add: validateHashTable_def keys)
    also have "\<dots> = check_courses (dom t) (es1 @ (k, c) # es2)"
      by (simp only: split)
    also have "\<dots> = check_courses (dom t) (es1 @ [(k, c)])"
      by (rule check_courses_stops [OF violation])
    finally show ?thesis .
  qed
  show ?thesis
  proof (intro conjI impI)
    show "fst (validateHashTable es) \<longleftrightarrow>
            (\<forall>k c. t k = Some c \<longrightarrow> (\<forall>p \<in> set (prerequisites c). p \<in> dom t))"
      by (rule first)
    show "validateHashTable es =
           (case find (\<lambda>p. p \<notin> dom t) (concat (map (\<lambda>e. prerequisites (snd e)) es)) of
              None \<Rightarrow> (True, [])
            | Some p \<Rightarrow> (False, missing_message p))"
      by (rule second)
    assume "es = es1 @ (k, c) # es2 \<and> (\<exists>p \<in> set (prerequisites c). p \<notin> dom t)"
    then show "validateHashTable es = check_courses (dom t) (es1 @ [(k, c)])"
      using third by simp
  qed
qed

text \<open>
  Two courses have an undefined prerequisite; the one visited first is reported, and
  the result is that of the table cut after it.
\<close>

theorem validateHashTable_first_violation_witness:
  "iteration_of
     (map_of
       [(''CS101'', \<lparr>number = ''CS101'', title = ''Intro to CS'', prerequisites = []\<rparr>),
        (''CS301'', \<lparr>number = ''CS301'', title = ''Algorithms'', prerequisites = [''CS201'', ''CS999'']\<rparr>),
        (''CS201'', \<lparr>number = ''CS201'', title = ''Data Structures'', prerequisites = [''CS777'']\<rparr>)])
     [(''CS101'', \<lparr>number = ''CS101'', title = ''Intro to CS'', prerequisites = []\<rparr>),
      (''CS301'', \<lparr>number = ''CS301'', title = ''Algorithms'', prerequisites = [''CS201'', ''CS999'']\<rparr>),
      (''CS201'', \<lparr>number = ''CS201'', title = ''Data Structures'', prerequisites = [''CS777'']\<rparr>)]
   \<and> validateHashTable
     [(''CS101'', \<lparr>number = ''CS101'', title = ''Intro to CS'', prerequisites = []\<rparr>),
      (''CS301'', \<lparr>number = ''CS301'', title = ''Algorithms'', prerequisites = [''CS201'', ''CS999'']\<rparr>),
      (''CS201'', \<lparr>number = ''CS201'', title = ''Data Structures'', prerequisites = [''CS777'']\<rparr>)]
     = (False, missing_message ''CS999'')
   \<and> validateHashTable
     [(''CS101'', \<lparr>number = ''CS101'', title = ''Intro to CS'', prerequisites = []\<rparr>),
      (''CS301'', \<lparr>number = ''CS301'', title = ''Algorithms'', prerequisites = [''CS201'', ''CS999'']\<rparr>),
      (''CS201'', \<lparr>number = ''CS201'', title = ''Data Structures'', prerequisites = [''CS777'']\<rparr>)]
     = check_courses {''CS101'', ''CS301'', ''CS201''}
         [(''CS101'', \<lparr>number = ''CS101'', title = ''Intro to CS'', prerequisites = []\<rparr>),
          (''CS301'', \<lparr>number = ''CS301'', title = ''Algorithms'', prerequisites = [''CS201'', ''CS999'']\<rparr>)]"
proof -
  let ?c1 = "\<lparr>number = ''CS101'', title = ''Intro to CS'', prerequisites = []\<rparr>"
  let ?c3 = "\<lparr>number = ''CS301'', title = ''Algorithms'', prerequisites = [''CS201'', ''CS999'']\<rparr>"
  let ?c2 = "\<lparr>number = ''CS201'', title = ''Data Structures'', prerequisites = [''CS777'']\<rparr>"
  let ?es = "[(''CS101'', ?c1), (''CS301'', ?c3), (''CS201'', ?c2)]"
  have h: "iteration_of (map_of ?es) ?es"
    by (simp add: iteration_of_def)
  have d: "dom (map_of ?es) = {''CS101'', ''CS301'', ''CS201''}"
    by (simp add: dom_map_of_conv_image_fst)
  have split: "?es = [(''CS101'', ?c1)] @ (''CS301'', ?c3) # [(''CS201'', ?c2)]
      \<and> (\<exists>p \<in> set (prerequisites ?c3). p \<notin> dom (map_of ?es))"
    unfolding d by simp
  note inst = validateHashTable_first_violation
    [of "map_of ?es" ?es "[(''CS101'', ?c1)]" "''CS301''" ?c3 "[(''CS201'', ?c2)]", OF h]
  from inst have "validateHashTable ?es =
      (case find (\<lambda>p. p \<notin> dom (map_of ?es)) (concat (map (\<lambda>e. prerequisites (snd e)) ?es)) of
         None \<Rightarrow> (True, [])
       | Some p \<Rightarrow> (False, missing_message p))"
    by (rule conjunct1 [OF conjunct2])
  then have a: "validateHashTable ?es = (False, missing_message ''CS999'')"
    unfolding d by simp
  from inst have "?es = [(''CS101'', ?c1)] @ (''CS301'', ?c3) # [(''CS201'', ?c2)]
      \<and> (\<exists>p \<in> set (prerequisites ?c3). p \<notin> dom (map_of ?es)) \<longrightarrow>
      validateHashTable ?es = check_courses (dom (map_of ?es)) ([(''CS101'', ?c1)] @ [(''CS301'', ?c3)])"
    by (rule conjunct2 [OF conjunct2])
  then have "validateHashTable ?es = check_courses (dom (map_of ?es)) ([(''CS101'', ?c1)] @ [(''CS301'', ?c3)])"
    using split by (rule mp)
  then have b: "validateHashTable ?es = check_courses {''CS101'', ''CS301'', ''CS201''}
      [(''CS101'', ?c1), (''CS301'', ?c3)]"
    unfolding d by simp
  show ?thesis by (intro conjI h a b)
qed

subsection \<open>The number of records\<close>

text \<open>
  C2, amended.  The number of records after a load is the number of distinct course
  numbers among the accepted lines (those with at least two tokens).  It never exceeds
  the number of accepted lines, and it equals that number when the accepted lines have
  pairwise different course numbers.
\<close>

theorem load_count_distinct_identifiers:
  assumes "fs filePath = Some content"
  shows "card (dom (fst (loadCoursesToHashTable fs filePath))) =
           length (remdups (map (\<lambda>l. line_tokens l ! 0) (filter accepted (file_lines content))))
       \<and> card (dom (fst (loadCoursesToHashTable fs filePath))) \<le>
           length (filter accepted (file_lines content))
       \<and> (distinct (map (\<lambda>l. line_tokens l ! 0) (filter accepted (file_lines content))) \<longrightarrow>
            card (dom (fst (loadCoursesToHashTable fs filePath))) =
              length (filter accepted (file_lines content)))"
proof -
  let ?ids = "map (\<lambda>l. line_tokens l ! 0) (filter accepted (file_lines content))"
  have d: "dom (fst (loadCoursesToHashTable fs filePath)) = set ?ids"
    by (simp only: load_table [of fs filePath content, OF assms] fold_load_line_dom) simp
  have c: "card (set ?ids) = length (remdups ?ids)"
    by (rule card_set)
  have "length (remdups ?ids) \<le> length ?ids"
    by (rule length_remdups_leq)
  moreover have "length (remdups ?ids) = length ?ids" if "distinct ?ids"
    using that by (simp only: distinct_remdups_id)
  ultimately show ?thesis
    unfolding d c by simp
qed

text \<open>Three lines, one of them rejected, two records.\<close>

theorem load_count_distinct_identifiers_witness:
  "(Map.empty(''courses.txt'' \<mapsto> ''CS101,Intro to CS\<newline>CS101\<newline>CS201,Data Structures,CS101\<newline>''))
      ''courses.txt'' = Some ''CS101,Intro to CS\<newline>CS101\<newline>CS201,Data Structures,CS101\<newline>''
   \<and> distinct (map (\<lambda>l. line_tokens l ! 0)
        (filter accepted (file_lines ''CS101,Intro to CS\<newline>CS101\<newline>CS201,Data Structures,CS101\<newline>'')))
   \<and> card (dom (fst (loadCoursesToHashTable
        (Map.empty(''courses.txt'' \<mapsto> ''CS101,Intro to CS\<newline>CS101\<newline>CS201,Data Structures,CS101\<newline>''))
        ''courses.txt''))) = 2"
proof -
  let ?content = "''CS101,Intro to CS\<newline>CS101\<newline>CS201,Data Structures,CS101\<newline>''"
  let ?fs = "Map.empty(''courses.txt'' \<mapsto> ?content)"
  have h: "?fs ''courses.txt'' = Some ?content" by simp
  have l: "filter accepted (file_lines ?content) = [''CS101,Intro to CS'', ''CS201,Data Structures,CS101'']"
    by (simp add: file_lines_def accepted_def line_tokens_def read_tokens_step)
  have d: "distinct (map (\<lambda>l. line_tokens l ! 0) (filter accepted (file_lines ?content)))"
    unfolding l by (simp add: line_tokens_def read_tokens_step)
  from load_count_distinct_identifiers [of ?fs "''courses.txt''" ?content, OF h] d
  have "card (dom (fst (loadCoursesToHashTable ?fs ''courses.txt''))) =
      length (filter accepted (file_lines ?content))"
    by blast
  then have "card (dom (fst (loadCoursesToHashTable ?fs ''courses.txt''))) = 2"
    unfolding l by simp
  with h d show ?thesis by blast
qed

text \<open>
  With the number of accepted lines in place of the number of distinct course numbers the
  statement fails: two accepted lines with the same course number leave one record.
\<close>

theorem load_count_counterexample:
  "card (dom (fst (loadCoursesToHashTable
       (Map.empty(''courses.txt'' \<mapsto> ''CS101,Intro to CS\<newline>CS101,Introduction\<newline>''))
       ''courses.txt'')))
   \<noteq> length (filter accepted (file_lines ''CS101,Intro to CS\<newline>CS101,Introduction\<newline>''))"
  by (simp add: loadCoursesToHashTable_def load_loop_fold file_lines_def load_line_def
      accepted_def line_tokens_def read_tokens_step Let_def)

subsection \<open>Duplicate course numbers\<close>

text \<open>
  C3.  When the file has accepted lines with course number \<open>k\<close> (\<open>same\<close>, in file
  order), the record stored under \<open>k\<close> has the title and the prerequisites of the last
  of them.  Nothing is reported for a duplicate: the diagnostics are one message for
  every rejected line and nothing else.
\<close>

theorem load_last_write_wins:
  assumes "fs filePath = Some content"
    and "same = filter (\<lambda>l. accepted l \<and> line_tokens l ! 0 = k) (file_lines content)"
    and "same \<noteq> []"
  shows "fst (loadCoursesToHashTable fs filePath) k =
           Some \<lparr>number = k, title = line_tokens (last same) ! 1,
                 prerequisites = drop 2 (line_tokens (last same))\<rparr>
       \<and> snd (loadCoursesToHashTable fs filePath) =
           concat (map (\<lambda>l. malformed_message) (filter (\<lambda>l. \<not> accepted l) (file_lines content)))"
proof -
  have load: "loadCoursesToHashTable fs filePath = fold load_line (file_lines content) (Map.empty, [])"
    by (rule load_table [of fs filePath content, OF assms(1)])
  from assms(3) have "last same \<in> set same" by simp
  then have k: "line_tokens (last same) ! 0 = k"
    unfolding assms(2) by simp
  obtain x xs where same: "same = x # xs"
    using assms(3) by (cases same) auto
  have "fst (loadCoursesToHashTable fs filePath) k = Some (course_of_line (last same))"
    unfolding load fold_load_line_table assms(2) [symmetric] by (simp add: same)
  also have "course_of_line (last same) =
      \<lparr>number = k, title = line_tokens (last same) ! 1,
       prerequisites = drop 2 (line_tokens (last same))\<rparr>"
    by (simp add: course_of_line_def k)
  finally have table: "fst (loadCoursesToHashTable fs filePath) k =
      Some \<lparr>number = k, title = line_tokens (last same) ! 1,
            prerequisites = drop 2 (line_tokens (last same))\<rparr>" .
  have err: "snd (loadCoursesToHashTable fs filePath) =
      concat (map (\<lambda>l. malformed_message) (filter (\<lambda>l. \<not> accepted l) (file_lines content)))"
    unfolding load fold_load_line_err by simp
  from table err show ?thesis by (rule conjI)
qed

text \<open>\<^verbatim>\<open>CS201\<close> occurs on the first and on the third line; the third one is stored.\<close>

theorem load_last_write_wins_witness:
  "(Map.empty(''courses.txt'' \<mapsto> ''CS201,Data Structures\<newline>CS101,Intro\<newline>CS201,Algorithms,CS101\<newline>''))
      ''courses.txt'' = Some ''CS201,Data Structures\<newline>CS101,Intro\<newline>CS201,Algorithms,CS101\<newline>''
   \<and> [''CS201,Data Structures'', ''CS201,Algorithms,CS101''] =
       filter (\<lambda>l. accepted l \<and> line_tokens l ! 0 = ''CS201'')
         (file_lines ''CS201,Data Structures\<newline>CS101,Intro\<newline>CS201,Algorithms,CS101\<newline>'')
   \<and> [''CS201,Data Structures'', ''CS201,Algorithms,CS101''] \<noteq> []
   \<and> fst (loadCoursesToHashTable
        (Map.empty(''courses.txt'' \<mapsto> ''CS201,Data Structures\<newline>CS101,Intro\<newline>CS201,Algorithms,CS101\<newline>''))
        ''courses.txt'') ''CS201''
       = Some \<lparr>number = ''CS201'', title = ''Algorithms'', prerequisites = [''CS101'']\<rparr>
   \<and> snd (loadCoursesToHashTable
        (Map.empty(''courses.txt'' \<mapsto> ''CS201,Data Structures\<newline>CS101,Intro\<newline>CS201,Algorithms,CS101\<newline>''))
        ''courses.txt'') = []"
proof -
  let ?content = "''CS201,Data Structures\<newline>CS101,Intro\<newline>CS201,Algorithms,CS101\<newline>''"
  let ?fs = "Map.empty(''courses.txt'' \<mapsto> ?content)"
  let ?same = "[''CS201,Data Structures'', ''CS201,Algorithms,CS101'']"
  have h1: "?fs ''courses.txt'' = Some ?content" by simp
  have h2: "?same = filter (\<lambda>l. accepted l \<and> line_tokens l ! 0 = ''CS201'') (file_lines ?content)"
    by (simp add: file_lines_def accepted_def line_tokens_def read_tokens_step)
  have h3: "?same \<noteq> []" by simp
  have none: "filter (\<lambda>l. \<not> accepted l) (file_lines ?content) = []"
    by (simp add: file_lines_def accepted_def line_tokens_def read_tokens_step)
  from load_last_write_wins [of ?fs "''courses.txt''" ?content ?same "''CS201''", OF h1 h2 h3]
  have "fst (loadCoursesToHashTable ?fs ''courses.txt'') ''CS201''
       = Some \<lparr>number = ''CS201'', title = ''Algorithms'', prerequisites = [''CS101'']\<rparr>
     \<and> snd (loadCoursesToHashTable ?fs ''courses.txt'') = []"
    unfolding none by (simp add: line_tokens_def read_tokens_step)
  with h1 h2 h3 show ?thesis by blast
qed

subsection \<open>The sorted listing\<close>

text \<open>
  C4.  For every table whose records are stored under their own course numbers (every
  table a load returns, by \<open>load_keyed_by_number\<close>) and every order \<open>es\<close> in which
  its entries are visited, \<open>PrintAllCourses\<close> writes the heading and then one line
  \<^verbatim>\<open><number>: <title>\<close> for each key of the table, the keys in strictly ascending
  lexicographic byte order.
\<close>

theorem PrintAllCourses_sorted:
  assumes "iteration_of t es" and "keyed_by_number t"
  shows "PrintAllCourses t es =
           ''Courses in the Computer Science department:'' @ endl @
           concat (map (\<lambda>k. k @ '': '' @ title (subscript t k) @ endl)
             (sorted_list_of_set (dom t)))
       \<and> sorted_wrt (<) (sorted_list_of_set (dom t))
       \<and> set (sorted_list_of_set (dom t)) = dom t"
proof -
  have d: "dom t = set (map fst es)"
    using iteration_of_dom [OF assms(1)] by simp
  have dist: "distinct (map fst es)"
    using assms(1) by (simp add: iteration_of_def)
  have "sorted_list_of_set (set (map fst es)) = sort (remdups (map fst es))"
    by (rule sorted_list_of_set_sort_remdups)
  also have "remdups (map fst es) = map fst es"
    using dist by (rule distinct_remdups_id)
  finally have keys: "sort (map fst es) = sorted_list_of_set (dom t)"
    unfolding d by (rule sym)
  have num: "number (subscript t k) = k" if "k \<in> dom t" for k
    using that assms(2) by (auto simp: keyed_by_number_def subscript_def)
  have fin: "finite (dom t)" unfolding d by simp
  have "print_lines t (sorted_list_of_set (dom t)) =
      concat (map (\<lambda>k. number (subscript t k) @ '': '' @ title (subscript t k) @ endl)
        (sorted_list_of_set (dom t)))"
    by (rule print_lines_concat)
  also have "\<dots> = concat (map (\<lambda>k. k @ '': '' @ title (subscript t k) @ endl)
        (sorted_list_of_set (dom t)))"
    using fin by (intro arg_cong [where f = concat] map_cong refl) (simp add: num)
  finally have out: "PrintAllCourses t es =
           ''Courses in the Computer Science department:'' @ endl @
           concat (map (\<lambda>k. k @ '': '' @ title (subscript t k) @ endl)
             (sorted_list_of_set (dom t)))"
    by (simp add: PrintAllCourses_def keys)
  have "sorted_wrt (<) (sorted_list_of_set (dom t))"
    by (rule sorted_list_of_set.strict_sorted_key_list_of_set)
  moreover have "set (sorted_list_of_set (dom t)) = dom t"
    using fin by simp
  ultimately show ?thesis using out by blast
qed

text \<open>The example of the specification, visited in another order.\<close>

theorem PrintAllCourses_sorted_witness:
  "iteration_of
     (map_of
       [(''CS301'', \<lparr>number = ''CS301'', title = ''Algorithms'', prerequisites = [''CS201'', ''CS999'']\<rparr>),
        (''CS101'', \<lparr>number = ''CS101'', title = ''Intro to CS'', prerequisites = []\<rparr>),
        (''CS201'', \<lparr>number = ''CS201'', title = ''Data Structures'', prerequisites = [''CS101'']\<rparr>)])
     [(''CS301'', \<lparr>number = ''CS301'', title = ''Algorithms'', prerequisites = [''CS201'', ''CS999'']\<rparr>),
      (''CS101'', \<lparr>number = ''CS101'', title = ''Intro to CS'', prerequisites = []\<rparr>),
      (''CS201'', \<lparr>number = ''CS201'', title = ''Data Structures'', prerequisites = [''CS101'']\<rparr>)]
   \<and> keyed_by_number
     (map_of
       [(''CS301'', \<lparr>number = ''CS301'', title = ''Algorithms'', prerequisites = [''CS201'', ''CS999'']\<rparr>),
        (''CS101'', \<lparr>number = ''CS101'', title = ''Intro to CS'', prerequisites = []\<rparr>),
        (''CS201'', \<lparr>number = ''CS201'', title = ''Data Structures'', prerequisites = [''CS101'']\<rparr>)])
   \<and> PrintAllCourses
     (map_of
       [(''CS301'', \<lparr>number = ''CS301'', title = ''Algorithms'', prerequisites = [''CS201'', ''CS999'']\<rparr>),
        (''CS101'', \<lparr>number = ''CS101'', title = ''Intro to CS'', prerequisites = []\<rparr>),
        (''CS201'', \<lparr>number = ''CS201'', title = ''Data Structures'', prerequisites = [''CS101'']\<rparr>)])
     [(''CS301'', \<lparr>number = ''CS301'', title = ''Algorithms'', prerequisites = [''CS201'', ''CS999'']\<rparr>),
      (''CS101'', \<lparr>number = ''CS101'', title = ''Intro to CS'', prerequisites = []\<rparr>),
      (''CS201'', \<lparr>number = ''CS201'', title = ''Data Structures'', prerequisites = [''CS101'']\<rparr>)]
     = ''Courses in the Computer Science department:\<newline>CS101: Intro to CS\<newline>CS201: Data Structures\<newline>CS301: Algorithms\<newline>''"
proof -
  let ?es = "[(''CS301'', \<lparr>number = ''CS301'', title = ''Algorithms'', prerequisites = [''CS201'', ''CS999'']\<rparr>),
      (''CS101'', \<lparr>number = ''CS101'', title = ''Intro to CS'', prerequisites = []\<rparr>),
      (''CS201'', \<lparr>number = ''CS201'', title = ''Data Structures'', prerequisites = [''CS101'']\<rparr>)]"
  have h1: "iteration_of (map_of ?es) ?es"
    by (simp add: iteration_of_def)
  have h2: "keyed_by_number (map_of ?es)"
    by (simp add: keyed_by_number_def)
  have d: "dom (map_of ?es) = {''CS301'', ''CS101'', ''CS201''}"
    by (simp add: dom_map_of_conv_image_fst)
  have s: "sorted_list_of_set {''CS301'', ''CS101'', ''CS201''} = [''CS101'', ''CS201'', ''CS301'']"
    by simp
  from PrintAllCourses_sorted [OF h1 h2]
  have "PrintAllCourses (map_of ?es) ?es =
      ''Courses in the Computer Science department:'' @ endl @
      concat (map (\<lambda>k. k @ '': '' @ title (subscript (map_of ?es) k) @ endl)
        (sorted_list_of_set (dom (map_of ?es))))"
    by (rule conjunct1)
  then have "PrintAllCourses (map_of ?es) ?es =
      ''Courses in the Computer Science department:\<newline>CS101: Intro to CS\<newline>CS201: Data Structures\<newline>CS301: Algorithms\<newline>''"
    unfolding d s by (simp add: subscript_def endl_def)
  with h1 h2 show ?thesis by blast
qed

subsection \<open>A file that does not open\<close>

text \<open>
  C5.  When the file does not open, the load writes one diagnostic and returns the empty
  table; the table is the one returned for an empty file.
\<close>

theorem load_unopened_is_empty:
  assumes "fs filePath = None"
  shows "loadCoursesToHashTable fs filePath = (Map.empty, ''Error: Unable to open file.'' @ endl)
       \<and> (\<forall>fs'. fs' filePath = Some [] \<longrightarrow>
            fst (loadCoursesToHashTable fs' filePath) = fst (loadCoursesToHashTable fs filePath))"
  using assms
  by (simp add: loadCoursesToHashTable_def load_loop.simps getline_def)

theorem load_unopened_is_empty_witness:
  "(Map.empty :: FileSystem) ''missing.txt'' = None
   \<and> loadCoursesToHashTable Map.empty ''missing.txt'' =
       (Map.empty, ''Error: Unable to open file.\<newline>'')
   \<and> fst (loadCoursesToHashTable (Map.empty(''missing.txt'' \<mapsto> [])) ''missing.txt'') =
       fst (loadCoursesToHashTable Map.empty ''missing.txt'')"
proof -
  have h: "(Map.empty :: FileSystem) ''missing.txt'' = None" by simp
  have h': "(Map.empty(''missing.txt'' \<mapsto> [])) ''missing.txt'' = Some []" by simp
  from load_unopened_is_empty [of Map.empty "''missing.txt''", OF h] h'
  show ?thesis by (simp add: endl_def)
qed

subsection \<open>Searching\<close>

text \<open>
  C6, amended.  For a key of the table, \<open>searchCourseInHashTable\<close> writes the number,
  the title and the prerequisites of the stored record, the prerequisites in stored order
  and each one followed by a space (the sequence joined by spaces, and one more space at
  the end), or \<^verbatim>\<open>None\<close> when there are none.  For any other course number it writes
  nothing to the standard output and a not-found diagnostic.
\<close>

theorem search_output:
  "(t k = Some c \<longrightarrow>
      searchCourseInHashTable t k =
        (''Course Number: '' @ number c @ endl @
         ''Course Title: '' @ title c @ endl @
         ''Prerequisites: '' @
         (if prerequisites c = [] then ''None''
          else join_fields (CHR '' '') (prerequisites c) @ '' '') @ endl,
         []))
   \<and> (t k = None \<longrightarrow>
      searchCourseInHashTable t k = ([], ''Error: Course '' @ k @ '' not found.'' @ endl))"
  by (simp add: searchCourseInHashTable_def print_prerequisites_join)

theorem search_output_witness:
  "(Map.empty(''CS301'' \<mapsto>
        \<lparr>number = ''CS301'', title = ''Algorithms'', prerequisites = [''CS201'', ''CS999'']\<rparr>))
      ''CS301''
     = Some \<lparr>number = ''CS301'', title = ''Algorithms'', prerequisites = [''CS201'', ''CS999'']\<rparr>
   \<and> searchCourseInHashTable
       (Map.empty(''CS301'' \<mapsto>
         \<lparr>number = ''CS301'', title = ''Algorithms'', prerequisites = [''CS201'', ''CS999'']\<rparr>))
       ''CS301''
     = (''Course Number: CS301\<newline>Course Title: Algorithms\<newline>Prerequisites: CS201 CS999 \<newline>'', [])
   \<and> (Map.empty(''CS301'' \<mapsto>
        \<lparr>number = ''CS301'', title = ''Algorithms'', prerequisites = [''CS201'', ''CS999'']\<rparr>))
      ''CS101'' = None
   \<and> searchCourseInHashTable
       (Map.empty(''CS301'' \<mapsto>
         \<lparr>number = ''CS301'', title = ''Algorithms'', prerequisites = [''CS201'', ''CS999'']\<rparr>))
       ''CS101''
     = ([], ''Error: Course CS101 not found.\<newline>'')"
proof -
  let ?c = "\<lparr>number = ''CS301'', title = ''Algorithms'', prerequisites = [''CS201'', ''CS999'']\<rparr>"
  let ?t = "Map.empty(''CS301'' \<mapsto> ?c)"
  have h1: "?t ''CS301'' = Some ?c" by simp
  have h2: "?t ''CS101'' = None" by simp
  from search_output [of ?t "''CS301''" ?c] h1
  have a: "searchCourseInHashTable ?t ''CS301''
     = (''Course Number: CS301\<newline>Course Title: Algorithms\<newline>Prerequisites: CS201 CS999 \<newline>'', [])"
    by (simp add: endl_def)
  from search_output [of ?t "''CS101''" ?c] h2
  have b: "searchCourseInHashTable ?t ''CS101'' = ([], ''Error: Course CS101 not found.\<newline>'')"
    by (simp add: endl_def)
  from h1 a h2 b show ?thesis by blast
qed

text \<open>
  The output for a record with prerequisites is not the format of the specification,
  which joins the prerequisites and ends the line after the last one.
\<close>

theorem search_output_counterexample:
  "fst (searchCourseInHashTable
     (Map.empty(''CS201'' \<mapsto>
        \<lparr>number = ''CS201'', title = ''Data Structures'', prerequisites = [''CS101'']\<rparr>))
     ''CS201'')
   \<noteq> search_format_spec
       \<lparr>number = ''CS201'', title = ''Data Structures'', prerequisites = [''CS101'']\<rparr>"
  by (simp add: searchCourseInHashTable_def search_format_spec_def endl_def)

subsection \<open>Tokens of a line\<close>

text \<open>
  C7, amended.  The tokens of a line are the text between the commas, in order and
  unchanged: no token contains a comma, and joining the tokens with commas gives the
  line back (without its last character when that is a comma).  A line with fewer than
  two tokens leaves the table as it is and adds one diagnostic, and the load goes on with
  the lines after it.
\<close>

theorem tokens_are_raw_fields:
  "(\<forall>tok \<in> set (line_tokens l). CHR '','' \<notin> set tok)
   \<and> (line_tokens l = [] \<longleftrightarrow> l = [])
   \<and> (l \<noteq> [] \<longrightarrow>
        join_fields (CHR '','') (line_tokens l) = (if last l = CHR '','' then butlast l else l))
   \<and> (length (line_tokens l) < 2 \<longrightarrow> load_line l (t, e) = (t, e @ malformed_message))
   \<and> (CHR 0x0A \<notin> set l \<longrightarrow>
        load_loop (l @ CHR 0x0A # rest) st = load_loop rest (load_line l st))"
proof (intro conjI ballI impI)
  fix tok
  assume "tok \<in> set (line_tokens l)"
  then show "CHR '','' \<notin> set tok"
    unfolding line_tokens_def by (rule read_tokens_no_delim)
next
  show "line_tokens l = [] \<longleftrightarrow> l = []" by (simp add: line_tokens_def)
next
  assume "l \<noteq> []"
  then show "join_fields (CHR '','') (line_tokens l) = (if last l = CHR '','' then butlast l else l)"
    unfolding line_tokens_def by (rule join_read_tokens)
next
  assume "length (line_tokens l) < 2"
  then show "load_line l (t, e) = (t, e @ malformed_message)"
    by (simp add: load_line_cases accepted_def)
next
  assume "CHR 0x0A \<notin> set l"
  then show "load_loop (l @ CHR 0x0A # rest) st = load_loop rest (load_line l st)"
    by (rule load_loop_line)
qed

text \<open>Blanks around a token stay, and the line after a rejected one is loaded.\<close>

theorem tokens_are_raw_fields_witness:
  "'' CS101 '' \<noteq> []
   \<and> join_fields (CHR '','') (line_tokens '' CS101 '') = '' CS101 ''
   \<and> length (line_tokens '' CS101 '') < 2
   \<and> CHR 0x0A \<notin> set '' CS101 ''
   \<and> load_loop ('' CS101 '' @ CHR 0x0A # ''CS201, Data Structures ,CS101'') (Map.empty, [])
     = ([''CS201'' \<mapsto> \<lparr>number = ''CS201'', title = '' Data Structures '', prerequisites = [''CS101'']\<rparr>],
        malformed_message)"
proof -
  note inst = tokens_are_raw_fields
    [of "'' CS101 ''" Map.empty "[]" "''CS201, Data Structures ,CS101''" "(Map.empty, [])"]
  have h0: "'' CS101 '' \<noteq> []" by simp
  from inst h0 have j: "join_fields (CHR '','') (line_tokens '' CS101 '') = '' CS101 ''"
    by simp
  have h1: "length (line_tokens '' CS101 '') < 2"
    by (simp add: line_tokens_def read_tokens_step)
  have h2: "CHR 0x0A \<notin> set '' CS101 ''" by simp
  from inst h1 h2
  have "load_loop ('' CS101 '' @ CHR 0x0A # ''CS201, Data Structures ,CS101'') (Map.empty, [])
      = load_loop ''CS201, Data Structures ,CS101'' (Map.empty, [] @ malformed_message)"
    by simp
  also have "\<dots> = ([''CS201'' \<mapsto> \<lparr>number = ''CS201'', title = '' Data Structures '', prerequisites = [''CS101'']\<rparr>],
        malformed_message)"
    by (simp add: load_loop_fold file_lines_def load_line_def read_tokens_step Let_def)
  finally have r: "load_loop ('' CS101 '' @ CHR 0x0A # ''CS201, Data Structures ,CS101'') (Map.empty, [])
     = ([''CS201'' \<mapsto> \<lparr>number = ''CS201'', title = '' Data Structures '', prerequisites = [''CS101'']\<rparr>],
        malformed_message)" .
  show ?thesis by (intro conjI h0 j h1 h2 r)
qed

text \<open>The tokens are not trimmed: a blank after a comma starts the next token.\<close>

theorem tokens_trimmed_counterexample:
  "\<not> list_all is_trimmed (line_tokens ''CS101, Intro to CS'')"
  by (simp add: line_tokens_def read_tokens_step is_trimmed_def is_space_def)

subsection \<open>The keys of a loaded table\<close>

text \<open>
  C8, amended.  The keys after a load are the first tokens of the accepted lines.  The
  empty string is a key exactly when an accepted line begins with a comma; when no
  accepted line does, every key is non-empty.
\<close>

theorem load_keys_first_tokens:
  assumes "fs filePath = Some content"
  shows "dom (fst (loadCoursesToHashTable fs filePath)) =
           set (map (\<lambda>l. line_tokens l ! 0) (filter accepted (file_lines content)))
       \<and> ([] \<in> dom (fst (loadCoursesToHashTable fs filePath)) \<longleftrightarrow>
            (\<exists>l \<in> set (file_lines content). accepted l \<and> hd l = CHR '',''))
       \<and> ((\<forall>l \<in> set (file_lines content). accepted l \<longrightarrow> hd l \<noteq> CHR '','') \<longrightarrow>
            (\<forall>k \<in> dom (fst (loadCoursesToHashTable fs filePath)). k \<noteq> []))"
proof -
  have d: "dom (fst (loadCoursesToHashTable fs filePath)) =
      set (map (\<lambda>l. line_tokens l ! 0) (filter accepted (file_lines content)))"
    by (simp only: load_table [of fs filePath content, OF assms] fold_load_line_dom) simp
  have e: "[] \<in> dom (fst (loadCoursesToHashTable fs filePath)) \<longleftrightarrow>
      (\<exists>l \<in> set (file_lines content). accepted l \<and> hd l = CHR '','')"
  proof
    assume "[] \<in> dom (fst (loadCoursesToHashTable fs filePath))"
    then obtain l where l: "l \<in> set (file_lines content)" "accepted l" "line_tokens l ! 0 = []"
      unfolding d by auto
    from l(2) have "l \<noteq> []" by (rule accepted_nonempty)
    with l(3) have "hd l = CHR '',''" by (simp add: first_token_empty)
    with l show "\<exists>l \<in> set (file_lines content). accepted l \<and> hd l = CHR '',''" by blast
  next
    assume "\<exists>l \<in> set (file_lines content). accepted l \<and> hd l = CHR '',''"
    then obtain l where l: "l \<in> set (file_lines content)" "accepted l" "hd l = CHR '',''"
      by blast
    from l(2) have "l \<noteq> []" by (rule accepted_nonempty)
    with l(3) have "line_tokens l ! 0 = []" by (simp add: first_token_empty)
    with l(1,2) show "[] \<in> dom (fst (loadCoursesToHashTable fs filePath))"
      unfolding d by force
  qed
  have n: "\<forall>k \<in> dom (fst (loadCoursesToHashTable fs filePath)). k \<noteq> []"
    if none: "\<forall>l \<in> set (file_lines content). accepted l \<longrightarrow> hd l \<noteq> CHR '',''"
  proof
    fix k
    assume k: "k \<in> dom (fst (loadCoursesToHashTable fs filePath))"
    show "k \<noteq> []"
    proof
      assume "k = []"
      with k e obtain l where "l \<in> set (file_lines content)" "accepted l" "hd l = CHR '',''"
        by blast
      with none show False by blast
    qed
  qed
  show ?thesis
  proof (intro conjI impI)
    show "dom (fst (loadCoursesToHashTable fs filePath)) =
      set (map (\<lambda>l. line_tokens l ! 0) (filter accepted (file_lines content)))"
      by (rule d)
    show "[] \<in> dom (fst (loadCoursesToHashTable fs filePath)) \<longleftrightarrow>
      (\<exists>l \<in> set (file_lines content). accepted l \<and> hd l = CHR '','')"
      by (rule e)
    assume "\<forall>l \<in> set (file_lines content). accepted l \<longrightarrow> hd l \<noteq> CHR '',''"
    then show "\<forall>k \<in> dom (fst (loadCoursesToHashTable fs filePath)). k \<noteq> []"
      by (rule n)
  qed
qed

theorem load_keys_first_tokens_witness:
  "(Map.empty(''courses.txt'' \<mapsto> ''CS101,Intro to CS\<newline>,\<newline>CS201,Data Structures,CS101\<newline>''))
      ''courses.txt'' = Some ''CS101,Intro to CS\<newline>,\<newline>CS201,Data Structures,CS101\<newline>''
   \<and> \<not> (\<exists>l \<in> set (file_lines ''CS101,Intro to CS\<newline>,\<newline>CS201,Data Structures,CS101\<newline>'').
          accepted l \<and> hd l = CHR '','')
   \<and> dom (fst (loadCoursesToHashTable
        (Map.empty(''courses.txt'' \<mapsto> ''CS101,Intro to CS\<newline>,\<newline>CS201,Data Structures,CS101\<newline>''))
        ''courses.txt'')) = {''CS101'', ''CS201''}
   \<and> [] \<notin> dom (fst (loadCoursesToHashTable
        (Map.empty(''courses.txt'' \<mapsto> ''CS101,Intro to CS\<newline>,\<newline>CS201,Data Structures,CS101\<newline>''))
        ''courses.txt''))"
proof -
  let ?content = "''CS101,Intro to CS\<newline>,\<newline>CS201,Data Structures,CS101\<newline>''"
  let ?fs = "Map.empty(''courses.txt'' \<mapsto> ?content)"
  have h: "?fs ''courses.txt'' = Some ?content" by simp
  have l: "file_lines ?content = [''CS101,Intro to CS'', '','', ''CS201,Data Structures,CS101'']"
    by (simp add: file_lines_def read_tokens_step)
  have a: "filter accepted (file_lines ?content) = [''CS101,Intro to CS'', ''CS201,Data Structures,CS101'']"
    unfolding l by (simp add: accepted_def line_tokens_def read_tokens_step)
  have no: "\<forall>l \<in> set (file_lines ?content). accepted l \<longrightarrow> hd l \<noteq> CHR '',''"
    unfolding l by (simp add: accepted_def line_tokens_def read_tokens_step)
  note inst = load_keys_first_tokens [of ?fs "''courses.txt''" ?content, OF h]
  from inst have "dom (fst (loadCoursesToHashTable ?fs ''courses.txt'')) =
      set (map (\<lambda>l. line_tokens l ! 0) (filter accepted (file_lines ?content)))"
    by (rule conjunct1)
  then have d: "dom (fst (loadCoursesToHashTable ?fs ''courses.txt'')) = {''CS101'', ''CS201''}"
    unfolding a by (simp add: line_tokens_def read_tokens_step)
  from inst have "(\<forall>l \<in> set (file_lines ?content). accepted l \<longrightarrow> hd l \<noteq> CHR '','') \<longrightarrow>
      (\<forall>k \<in> dom (fst (loadCoursesToHashTable ?fs ''courses.txt'')). k \<noteq> [])"
    by (rule conjunct2 [OF conjunct2])
  then have "\<forall>k \<in> dom (fst (loadCoursesToHashTable ?fs ''courses.txt'')). k \<noteq> []"
    using no by (rule mp)
  then have n: "[] \<notin> dom (fst (loadCoursesToHashTable ?fs ''courses.txt''))"
    by blast
  from no have no': "\<not> (\<exists>l \<in> set (file_lines ?content). accepted l \<and> hd l = CHR '','')"
    by blast
  show ?thesis by (intro conjI h no' d n)
qed

text \<open>A line that begins with a comma and has a second token stores the empty key.\<close>

theorem load_empty_identifier_counterexample:
  "[] \<in> dom (fst (loadCoursesToHashTable
       (Map.empty(''courses.txt'' \<mapsto> '',Intro to CS\<newline>''))
       ''courses.txt''))"
  by (simp add: loadCoursesToHashTable_def load_loop_fold file_lines_def load_line_def
      read_tokens_step Let_def)

subsection \<open>Loading twice\<close>

text \<open>
  C9.  Menu choice 1 replaces the table by the result of the load, whatever the table
  was: after loading the same file a second time the table has the same keys and the
  same record under every key.  The result of a load depends on the bytes of the file
  only.
\<close>

theorem load_choice_idempotent:
  "dom (fst (load_choice fs filePath (fst (load_choice fs filePath old)))) =
     dom (fst (load_choice fs filePath old))
   \<and> (\<forall>k. fst (load_choice fs filePath (fst (load_choice fs filePath old))) k =
            fst (load_choice fs filePath old) k)
   \<and> fst (load_choice fs filePath old) = fst (loadCoursesToHashTable fs filePath)
   \<and> (fs' filePath' = fs filePath \<longrightarrow>
        loadCoursesToHashTable fs' filePath' = loadCoursesToHashTable fs filePath)"
  by (simp add: load_choice_def loadCoursesToHashTable_def split: prod.splits)

theorem load_choice_idempotent_witness:
  "(Map.empty(''copy.txt'' \<mapsto> ''CS101,Intro to CS\<newline>'')) ''copy.txt'' =
     (Map.empty(''courses.txt'' \<mapsto> ''CS101,Intro to CS\<newline>'')) ''courses.txt''
   \<and> loadCoursesToHashTable (Map.empty(''copy.txt'' \<mapsto> ''CS101,Intro to CS\<newline>'')) ''copy.txt'' =
     loadCoursesToHashTable (Map.empty(''courses.txt'' \<mapsto> ''CS101,Intro to CS\<newline>'')) ''courses.txt''
   \<and> fst (load_choice (Map.empty(''courses.txt'' \<mapsto> ''CS101,Intro to CS\<newline>'')) ''courses.txt''
        (fst (load_choice (Map.empty(''courses.txt'' \<mapsto> ''CS101,Intro to CS\<newline>'')) ''courses.txt''
           Map.empty))) ''CS101''
     = Some \<lparr>number = ''CS101'', title = ''Intro to CS'', prerequisites = []\<rparr>"
proof -
  let ?fs = "Map.empty(''courses.txt'' \<mapsto> ''CS101,Intro to CS\<newline>'')"
  let ?fs' = "Map.empty(''copy.txt'' \<mapsto> ''CS101,Intro to CS\<newline>'')"
  have h: "?fs' ''copy.txt'' = ?fs ''courses.txt''" by simp
  note inst = load_choice_idempotent [of ?fs "''courses.txt''" Map.empty ?fs' "''copy.txt''"]
  from inst have "?fs' ''copy.txt'' = ?fs ''courses.txt'' \<longrightarrow>
      loadCoursesToHashTable ?fs' ''copy.txt'' = loadCoursesToHashTable ?fs ''courses.txt''"
    by (rule conjunct2 [OF conjunct2 [OF conjunct2]])
  then have a: "loadCoursesToHashTable ?fs' ''copy.txt'' = loadCoursesToHashTable ?fs ''courses.txt''"
    using h by (rule mp)
  from inst have "\<forall>k. fst (load_choice ?fs ''courses.txt'' (fst (load_choice ?fs ''courses.txt'' Map.empty))) k
      = fst (load_choice ?fs ''courses.txt'' Map.empty) k"
    by (rule conjunct1 [OF conjunct2])
  then have s1: "fst (load_choice ?fs ''courses.txt'' (fst (load_choice ?fs ''courses.txt'' Map.empty))) ''CS101''
      = fst (load_choice ?fs ''courses.txt'' Map.empty) ''CS101''"
    by (rule spec)
  from inst have s2: "fst (load_choice ?fs ''courses.txt'' Map.empty) = fst (loadCoursesToHashTable ?fs ''courses.txt'')"
    by (rule conjunct1 [OF conjunct2 [OF conjunct2]])
  have s3: "fst (loadCoursesToHashTable ?fs ''courses.txt'') ''CS101''
      = Some \<lparr>number = ''CS101'', title = ''Intro to CS'', prerequisites = []\<rparr>"
    by (simp add: loadCoursesToHashTable_def load_loop_fold file_lines_def load_line_def
        read_tokens_step Let_def)
  have r: "fst (load_choice ?fs ''courses.txt'' (fst (load_choice ?fs ''courses.txt'' Map.empty))) ''CS101''
      = Some \<lparr>number = ''CS101'', title = ''Intro to CS'', prerequisites = []\<rparr>"
    by (rule trans [OF s1]) (simp only: s2 s3)
  show ?thesis by (intro conjI h a r)
qed

subsection \<open>A comma at the end of a line\<close>

text \<open>
  C10, amended.  A comma at the end of a line starts no token of its own: the tokens are
  those of the line without that comma when the rest is not empty and does not end
  with a comma as well, and then the last token is not empty.  When the rest is empty or
  ends with a comma, an empty token is the last one.  So \<^verbatim>\<open>A,B,\<close> is loaded with no
  prerequisites and \<^verbatim>\<open>A,\<close> is rejected.
\<close>

theorem trailing_delimiter_tokens:
  "line_tokens (l @ '','') =
     (if l = [] \<or> last l = CHR '','' then line_tokens l @ [[]] else line_tokens l)
   \<and> (l \<noteq> [] \<and> last l \<noteq> CHR '','' \<longrightarrow>
        line_tokens (l @ '','') \<noteq> [] \<and> last (line_tokens (l @ '','')) \<noteq> [])
   \<and> load_line ''A,B,'' (t, e) =
        (t(''A'' \<mapsto> \<lparr>number = ''A'', title = ''B'', prerequisites = []\<rparr>), e)
   \<and> load_line ''A,'' (t, e) = (t, e @ malformed_message)"
proof -
  have a: "line_tokens (l @ '','') =
     (if l = [] \<or> last l = CHR '','' then line_tokens l @ [[]] else line_tokens l)"
    unfolding line_tokens_def by (rule read_tokens_trailing)
  have b: "line_tokens (l @ '','') \<noteq> [] \<and> last (line_tokens (l @ '','')) \<noteq> []"
    if "l \<noteq> [] \<and> last l \<noteq> CHR '',''"
    using that last_read_tokens [of l "CHR '',''"] unfolding a by (simp add: line_tokens_def)
  have c: "load_line ''A,B,'' (t, e) =
        (t(''A'' \<mapsto> \<lparr>number = ''A'', title = ''B'', prerequisites = []\<rparr>), e)"
    by (simp add: load_line_def read_tokens_step Let_def)
  have d: "load_line ''A,'' (t, e) = (t, e @ malformed_message)"
    by (simp add: load_line_def read_tokens_step malformed_message_def)
  from a b c d show ?thesis by blast
qed

theorem trailing_delimiter_tokens_witness:
  "''CS101,Intro'' \<noteq> [] \<and> last ''CS101,Intro'' \<noteq> CHR '',''
   \<and> line_tokens (''CS101,Intro'' @ '','') = [''CS101'', ''Intro'']
   \<and> last (line_tokens (''CS101,Intro'' @ '','')) \<noteq> []
   \<and> line_tokens (''CS101,'' @ '','') = [''CS101'', []]"
proof -
  have h: "''CS101,Intro'' \<noteq> [] \<and> last ''CS101,Intro'' \<noteq> CHR '',''" by simp
  note inst = trailing_delimiter_tokens [of "''CS101,Intro''" Map.empty "[]"]
  from inst h have b: "last (line_tokens (''CS101,Intro'' @ '','')) \<noteq> []"
    by blast
  from inst have "line_tokens (''CS101,Intro'' @ '','') =
      (if ''CS101,Intro'' = [] \<or> last ''CS101,Intro'' = CHR '','' then line_tokens ''CS101,Intro'' @ [[]]
       else line_tokens ''CS101,Intro'')"
    by (rule conjunct1)
  then have a: "line_tokens (''CS101,Intro'' @ '','') = line_tokens ''CS101,Intro''"
    by simp
  have c: "line_tokens ''CS101,Intro'' = [''CS101'', ''Intro'']"
    by (simp add: line_tokens_def read_tokens_step)
  from trailing_delimiter_tokens [of "''CS101,''" Map.empty "[]"]
  have "line_tokens (''CS101,'' @ '','') = line_tokens ''CS101,'' @ [[]]"
    by simp
  then have d: "line_tokens (''CS101,'' @ '','') = [''CS101'', []]"
    by (simp add: line_tokens_def read_tokens_step)
  from a c have "line_tokens (''CS101,Intro'' @ '','') = [''CS101'', ''Intro'']"
    by (rule trans)
  with h b d show ?thesis by blast
qed

text \<open>Two commas at the end of a line leave an empty last token, stored as a prerequisite.\<close>

theorem trailing_empty_token_counterexample:
  "last ''CS301,Algorithms,,'' = CHR '',''
   \<and> line_tokens ''CS301,Algorithms,,'' = [''CS301'', ''Algorithms'', []]
   \<and> prerequisites (course_of_line ''CS301,Algorithms,,'') = [[]]"
  by (simp add: line_tokens_def course_of_line_def read_tokens_step)

end
